theory Spec2Isabelle
  imports Complex_Main "HOL-Library.Sublist"
begin

section \<open>Text and bytes\<close>

text \<open>
  The client of \<^verbatim>\<open>mimo.py\<close> moves between Python \<^verbatim>\<open>str\<close> and \<^verbatim>\<open>bytes\<close>:
  \<^verbatim>\<open>(command + "\n").encode()\<close> on the way out, \<^verbatim>\<open>response.decode().strip()\<close> on the way
  in. Both are lists of \<^typ>\<open>char\<close> here. In a \<open>bytes\<close> a character is one byte of the wire;
  in a \<open>str\<close> it is one code point below 256, which covers the ASCII protocol of the mount
  and the degree sign of its temperature line. Text with code points from 256 on has no
  value in this model.
\<close>

type_synonym bytes = "char list"
type_synonym str = "char list"

datatype error =
    ValueError str        \<comment> \<open>\<^verbatim>\<open>raise ValueError(msg)\<close>, and what \<^verbatim>\<open>float()\<close> raises\<close>
  | UnicodeDecodeError    \<comment> \<open>\<^verbatim>\<open>bytes.decode()\<close> on bytes that are not UTF-8\<close>
  | SerialException       \<comment> \<open>the serial port refusing a call: the port is not open\<close>

definition LF :: char where
  "LF = CHR 0x0A"

text \<open>\<^verbatim>\<open>str.encode()\<close>: UTF-8, one byte below 128 and two bytes from 128 to 255.\<close>

definition encode_char :: "char \<Rightarrow> bytes" where
  "encode_char c =
     (if (of_char c :: nat) < 128 then [c]
      else [char_of (192 + (of_char c :: nat) div 64), char_of (128 + (of_char c :: nat) mod 64)])"

definition encode :: "str \<Rightarrow> bytes" where
  "encode s = concat (map encode_char s)"

text \<open>
  \<^verbatim>\<open>bytes.decode()\<close>: strict UTF-8. A byte below 128 is itself; the lead bytes 0xC2 and
  0xC3 with one continuation byte give the code points 128 to 255. Every other byte
  sequence is rejected: Python rejects the malformed ones with \<open>UnicodeDecodeError\<close>, and the
  well-formed ones among them decode to text from code point 256 on, outside this model.
\<close>

fun decode :: "bytes \<Rightarrow> error + str" where
  "decode [] = Inr []"
| "decode (b # bs) =
     (if (of_char b :: nat) < 128 then map_sum id ((#) b) (decode bs)
      else if (of_char b :: nat) = 194 \<or> (of_char b :: nat) = 195 then
        (case bs of
           [] \<Rightarrow> Inl UnicodeDecodeError
         | c # bs' \<Rightarrow>
             if 128 \<le> (of_char c :: nat) \<and> (of_char c :: nat) < 192
             then map_sum id ((#) (char_of (((of_char b :: nat) - 192) * 64 + ((of_char c :: nat) - 128))))
                    (decode bs')
             else Inl UnicodeDecodeError)
      else Inl UnicodeDecodeError)"

text \<open>
  \<^verbatim>\<open>str.strip()\<close> removes the characters for which \<^verbatim>\<open>str.isspace()\<close> holds from both ends:
  below 256 these are U+0009 to U+000D, U+001C to U+0020, U+0085 and U+00A0.
\<close>

definition isspace :: "char \<Rightarrow> bool" where
  "isspace c = (let n = (of_char c :: nat) in
     (9 \<le> n \<and> n \<le> 13) \<or> (28 \<le> n \<and> n \<le> 32) \<or> n = 133 \<or> n = 160)"

definition strip :: "str \<Rightarrow> str" where
  "strip s = rev (dropWhile isspace (rev (dropWhile isspace s)))"

section \<open>The serial port\<close>

text \<open>
  \<^verbatim>\<open>self._aioserial\<close> is an \<open>AioSerial\<close> port opened without a timeout. The model keeps the
  bytes the peer has sent and the client has not read (\<open>inbound\<close>), the bytes the client
  has put on the wire (\<open>outbound\<close>), whether the port is open, and a log of every call made
  on the port, also of the calls the port refuses. \<open>stdout\<close> collects what \<^verbatim>\<open>print\<close> writes.
\<close>

datatype call = Write bytes | ReadUntil char | Close

record state =
  calls :: "call list"
  outbound :: bytes
  inbound :: bytes
  is_open :: bool
  stdout :: "str list"

text \<open>
  A call returns a value, raises, or never returns: a read without timeout on a port
  whose peer sends no terminator blocks for ever.
\<close>

datatype 'a outcome = Returns 'a | Raises error | Blocks

definition and_then ::
  "'a outcome \<times> state \<Rightarrow> ('a \<Rightarrow> state \<Rightarrow> 'b outcome \<times> state) \<Rightarrow> 'b outcome \<times> state" where
  "and_then m f =
     (case m of
        (Returns x, t) \<Rightarrow> f x t
      | (Raises e, t) \<Rightarrow> (Raises e, t)
      | (Blocks, t) \<Rightarrow> (Blocks, t))"

definition write_async :: "bytes \<Rightarrow> state \<Rightarrow> nat outcome \<times> state" where
  "write_async data t =
     (let t' = t\<lparr>calls := calls t @ [Write data]\<rparr>
      in if is_open t then (Returns (length data), t'\<lparr>outbound := outbound t @ data\<rparr>)
         else (Raises SerialException, t'))"

text \<open>
  \<^verbatim>\<open>read_until_async(b"\n")\<close> hands out the unread bytes up to and including the first
  terminator. Without a terminator among them it takes them all and waits.
\<close>

definition read_until_async :: "char \<Rightarrow> state \<Rightarrow> bytes outcome \<times> state" where
  "read_until_async expected t =
     (let t' = t\<lparr>calls := calls t @ [ReadUntil expected]\<rparr>
      in if \<not> is_open t then (Raises SerialException, t')
         else if expected \<in> set (inbound t)
         then (Returns (takeWhile (\<lambda>b. b \<noteq> expected) (inbound t) @ [expected]),
               t'\<lparr>inbound := tl (dropWhile (\<lambda>b. b \<noteq> expected) (inbound t))\<rparr>)
         else (Blocks, t'\<lparr>inbound := []\<rparr>))"

definition serial_close :: "state \<Rightarrow> unit outcome \<times> state" where
  "serial_close t = (Returns (), t\<lparr>calls := calls t @ [Close], is_open := False\<rparr>)"

section \<open>Regular expressions of the client\<close>

text \<open>
  The four patterns of the client are sequences of literal text and of the group
  \<^verbatim>\<open>([\d.]+)\<close>. \<^verbatim>\<open>re.match\<close> anchors the pattern at the start of the string and lets
  anything follow the match. A group first takes the longest run of digits and dots and
  gives characters back one at a time, down to one character, until the rest of the
  pattern matches. On text below code point 256, \<^verbatim>\<open>\d\<close> is \<open>0\<close> to \<open>9\<close>.
\<close>

datatype re_item = Lit str | NumGroup

definition isdigit :: "char \<Rightarrow> bool" where
  "isdigit c = (48 \<le> (of_char c :: nat) \<and> (of_char c :: nat) \<le> 57)"

definition num_char :: "char \<Rightarrow> bool" where
  "num_char c = (isdigit c \<or> c = CHR ''.'')"

fun first_some :: "'a option list \<Rightarrow> 'a option" where
  "first_some [] = None"
| "first_some (None # xs) = first_some xs"
| "first_some (Some x # xs) = Some x"

fun re_match :: "re_item list \<Rightarrow> str \<Rightarrow> str list option" where
  "re_match [] s = Some []"
| "re_match (Lit l # p) s =
     (if prefix l s then re_match p (drop (length l) s) else None)"
| "re_match (NumGroup # p) s =
     first_some
       (map (\<lambda>k. map_option ((#) (take k s)) (re_match p (drop k s)))
            (rev [1 ..< Suc (length (takeWhile num_char s))]))"

section \<open>Numbers and text\<close>

text \<open>
  \<^verbatim>\<open>float(field)\<close> is only ever applied to a group of digits and dots. It accepts such a
  field when it holds at least one digit and at most one dot, and raises \<open>ValueError\<close>
  otherwise. The value kept here is the decimal the field denotes; Python stores the
  binary64 number nearest to it, infinity when the decimal is beyond the range.
\<close>

definition digit_val :: "char \<Rightarrow> nat" where
  "digit_val c = of_char c - 48"

definition decimal :: "str \<Rightarrow> nat" where
  "decimal ds = foldl (\<lambda>n c. 10 * n + digit_val c) 0 ds"

definition float_error :: "str \<Rightarrow> error" where
  "float_error s = ValueError (''could not convert string to float: '' @ [CHR 0x27] @ s @ [CHR 0x27])"

definition py_float :: "str \<Rightarrow> error + rat" where
  "py_float s =
     (let ip = takeWhile isdigit s; r = dropWhile isdigit s
      in case r of
           [] \<Rightarrow> if ip = [] then Inl (float_error s) else Inr (of_nat (decimal ip))
         | c # fp \<Rightarrow>
             if c = CHR ''.'' \<and> list_all isdigit fp \<and> ip @ fp \<noteq> []
             then Inr (of_nat (decimal (ip @ fp)) / 10 ^ length fp)
             else Inl (float_error s))"

text \<open>\<^verbatim>\<open>f"{speed}"\<close> for an \<^verbatim>\<open>int\<close>: the decimal digits, after a minus sign below zero.\<close>

fun str_nat :: "nat \<Rightarrow> str" where
  "str_nat n = (if n < 10 then [char_of (48 + n)] else str_nat (n div 10) @ [char_of (48 + n mod 10)])"

definition str_int :: "int \<Rightarrow> str" where
  "str_int i = (if i < 0 then CHR ''-'' # str_nat (nat (- i)) else str_nat (nat i))"

section \<open>The class MicroMONET\<close>

definition send_command :: "str \<Rightarrow> state \<Rightarrow> str outcome \<times> state" where
  "send_command command t =
     and_then (write_async (encode (command @ [LF])) t) (\<lambda>_ t1.
     and_then (read_until_async LF t1) (\<lambda>response t2.
       case decode response of
         Inl e \<Rightarrow> (Raises e, t2)
       | Inr decoded \<Rightarrow> (Returns (strip decoded), t2)))"

definition ready_phrase :: str where
  "ready_phrase = ''microMONET is ready for some stargazing!''"

function wait_for_ready :: "state \<Rightarrow> unit outcome \<times> state" where
  "wait_for_ready t =
     (case read_until_async LF t of
        (Returns response, t1) \<Rightarrow>
          (case decode response of
             Inl e \<Rightarrow> (Raises e, t1)
           | Inr decoded \<Rightarrow>
               if sublist ready_phrase (strip decoded)
               then (Returns (), t1\<lparr>stdout := stdout t1 @ [''Arduino is ready!'']\<rparr>)
               else wait_for_ready t1)
      | (Raises e, t1) \<Rightarrow> (Raises e, t1)
      | (Blocks, t1) \<Rightarrow> (Blocks, t1))"
  by pat_completeness auto
termination
proof (relation "measure (\<lambda>t. length (inbound t))")
  show "wf (measure (\<lambda>t. length (inbound t)))" by simp
next
  fix t :: state and x1 x2 response decoded
  assume "(x1, x2) = read_until_async LF t" and "x1 = Returns response"
  then have "read_until_async LF t = (Returns response, x2)" by simp
  then have "is_open t" and "LF \<in> set (inbound t)"
    and "x2 = t\<lparr>calls := calls t @ [ReadUntil LF],
                  inbound := tl (dropWhile (\<lambda>b. b \<noteq> LF) (inbound t))\<rparr>"
    by (auto simp: read_until_async_def Let_def split: if_splits)
  moreover have "length (tl (dropWhile (\<lambda>b. b \<noteq> LF) (inbound t))) < length (inbound t)"
    if "LF \<in> set (inbound t)"
  proof -
    have "dropWhile (\<lambda>b. b \<noteq> LF) (inbound t) \<noteq> []"
      using that by (simp add: dropWhile_eq_Nil_conv)
    then have "length (tl (dropWhile (\<lambda>b. b \<noteq> LF) (inbound t)))
                 < length (dropWhile (\<lambda>b. b \<noteq> LF) (inbound t))"
      by (cases "dropWhile (\<lambda>b. b \<noteq> LF) (inbound t)") simp_all
    also have "\<dots> \<le> length (inbound t)"
      by (rule length_dropWhile_le)
    finally show ?thesis .
  qed
  ultimately show "(x2, t) \<in> measure (\<lambda>t. length (inbound t))"
    by simp
qed

text \<open>
  \<^verbatim>\<open>return float(match.group(1)), float(match.group(2))\<close>: the first conversion that
  fails raises, and nothing is returned.
\<close>

definition float_pair :: "str list \<Rightarrow> (rat \<times> rat) outcome" where
  "float_pair groups =
     (case py_float (groups ! 0) of
        Inl e \<Rightarrow> Raises e
      | Inr altitude \<Rightarrow>
          (case py_float (groups ! 1) of
             Inl e \<Rightarrow> Raises e
           | Inr azimuth \<Rightarrow> Returns (altitude, azimuth)))"

definition position_re :: "re_item list" where
  "position_re = [Lit ''ALT: '', NumGroup, Lit '' AZ: '', NumGroup]"

definition aborted_re :: "re_item list" where
  "aborted_re = [Lit ''Aborted at ALT: '', NumGroup, Lit '' AZ: '', NumGroup]"

definition parse_position :: "str \<Rightarrow> (rat \<times> rat) outcome" where
  "parse_position response =
     (case re_match position_re response of
        Some groups \<Rightarrow> float_pair groups
      | None \<Rightarrow>
          (case re_match aborted_re response of
             Some groups \<Rightarrow> float_pair groups
           | None \<Rightarrow> Raises (ValueError (''Invalid position response: '' @ response))))"

definition get_position :: "state \<Rightarrow> (rat \<times> rat) outcome \<times> state" where
  "get_position t =
     and_then (send_command ''GET_POS'' t) (\<lambda>response t1. (parse_position response, t1))"

text \<open>
  \<^verbatim>\<open>f"ALT:{altitude} AZ:{azimuth}"\<close> formats its two arguments with Python's default
  conversion of the argument's type, which is the parameter \<open>fmt\<close> here.
\<close>

definition set_position :: "('f \<Rightarrow> str) \<Rightarrow> 'f \<Rightarrow> 'f \<Rightarrow> state \<Rightarrow> unit outcome \<times> state" where
  "set_position fmt altitude azimuth t =
     and_then (send_command (''ALT:'' @ fmt altitude @ '' AZ:'' @ fmt azimuth) t)
       (\<lambda>_ t1. (Returns (), t1))"

definition set_speed :: "int \<Rightarrow> state \<Rightarrow> unit outcome \<times> state" where
  "set_speed speed t =
     (if speed < 1 \<or> speed > 15
      then (Raises (ValueError ''Speed must be between 1 and 15 RPM.''), t)
      else and_then (send_command (''SET_SPEED '' @ str_int speed) t) (\<lambda>_ t1. (Returns (), t1)))"

definition led_on :: "state \<Rightarrow> unit outcome \<times> state" where
  "led_on t = and_then (send_command ''LED_ON'' t) (\<lambda>_ t1. (Returns (), t1))"

definition led_off :: "state \<Rightarrow> unit outcome \<times> state" where
  "led_off t = and_then (send_command ''LED_OFF'' t) (\<lambda>_ t1. (Returns (), t1))"

definition ccd_on :: "state \<Rightarrow> unit outcome \<times> state" where
  "ccd_on t = and_then (send_command ''CCD_ON'' t) (\<lambda>_ t1. (Returns (), t1))"

definition ccd_off :: "state \<Rightarrow> unit outcome \<times> state" where
  "ccd_off t = and_then (send_command ''CCD_OFF'' t) (\<lambda>_ t1. (Returns (), t1))"

definition temperature_re :: "re_item list" where
  "temperature_re = [Lit ''Temperature: '', NumGroup]"

definition humidity_re :: "re_item list" where
  "humidity_re = [Lit ''Humidity: '', NumGroup]"

definition float_single :: "str list \<Rightarrow> rat outcome" where
  "float_single groups =
     (case py_float (groups ! 0) of Inl e \<Rightarrow> Raises e | Inr x \<Rightarrow> Returns x)"

definition parse_temperature :: "str \<Rightarrow> rat outcome" where
  "parse_temperature response =
     (case re_match temperature_re response of
        Some groups \<Rightarrow> float_single groups
      | None \<Rightarrow> Raises (ValueError (''Invalid temperature response: '' @ response)))"

definition get_temperature :: "state \<Rightarrow> rat outcome \<times> state" where
  "get_temperature t =
     and_then (send_command ''GET_TEMP'' t) (\<lambda>response t1. (parse_temperature response, t1))"

definition parse_humidity :: "str \<Rightarrow> rat outcome" where
  "parse_humidity response =
     (case re_match humidity_re response of
        Some groups \<Rightarrow> float_single groups
      | None \<Rightarrow> Raises (ValueError (''Invalid humidity response: '' @ response)))"

definition get_humidity :: "state \<Rightarrow> rat outcome \<times> state" where
  "get_humidity t =
     and_then (send_command ''GET_HUMI'' t) (\<lambda>response t1. (parse_humidity response, t1))"

definition abort_slew :: "state \<Rightarrow> unit outcome \<times> state" where
  "abort_slew t = and_then (send_command ''ABORT'' t) (\<lambda>_ t1. (Returns (), t1))"

definition close :: "state \<Rightarrow> unit outcome \<times> state" where
  "close t = serial_close t"

section \<open>Encoding and stripping\<close>

lemma div64_cases: "128 \<le> (n::nat) \<Longrightarrow> n < 256 \<Longrightarrow> n div 64 = 2 \<or> n div 64 = 3"
proof -
  assume "128 \<le> n" and "n < 256"
  then have "2 \<le> n div 64" and "n div 64 < 4"
    by (simp_all add: less_eq_div_iff_mult_less_eq div_less_iff_less_mult)
  then show ?thesis by arith
qed

lemma decode_encode_char: "decode (encode_char c @ bs) = map_sum id ((#) c) (decode bs)"
proof -
  have lt: "(of_char c :: nat) < 256" by simp
  show ?thesis
  proof (cases "(of_char c :: nat) < 128")
    case True
    then show ?thesis by (simp add: encode_char_def)
  next
    case False
    define n where "n = (of_char c :: nat)"
    have n: "128 \<le> n" "n < 256" using False lt by (simp_all add: n_def)
    have d: "n div 64 = 2 \<or> n div 64 = 3" using n by (rule div64_cases)
    have c: "char_of n = c" by (simp add: n_def)
    have e: "encode_char c = [char_of (192 + n div 64), char_of (128 + n mod 64)]"
      using False by (simp add: encode_char_def n_def)
    have b1: "(of_char (char_of (192 + n div 64)) :: nat) = 192 + n div 64"
      using d by auto
    have b2: "(of_char (char_of (128 + n mod 64)) :: nat) = 128 + n mod 64"
      by simp
    have v: "(192 + n div 64 - 192) * 64 + (128 + n mod 64 - 128) = n" by simp
    have "decode (char_of (192 + n div 64) # char_of (128 + n mod 64) # bs)
            = map_sum id ((#) (char_of n)) (decode bs)"
      using d by (simp only: decode.simps b1 b2 v list.case) auto
    then show ?thesis by (simp add: e c)
  qed
qed

lemma decode_encode_append: "decode (encode s @ bs) = map_sum id ((@) s) (decode bs)"
proof (induction s)
  case Nil
  show ?case by (simp add: encode_def sum.map_ident)
next
  case (Cons c s)
  have "decode (encode (c # s) @ bs) = decode (encode_char c @ (encode s @ bs))"
    by (simp add: encode_def)
  also have "\<dots> = map_sum id ((#) c) (decode (encode s @ bs))"
    by (rule decode_encode_char)
  also have "\<dots> = map_sum id ((@) (c # s)) (decode bs)"
    by (cases "decode bs") (simp_all add: Cons.IH)
  finally show ?case .
qed

lemma decode_encode: "decode (encode s) = Inr s"
  using decode_encode_append [of s "[]"] by simp

lemma decode_encode_line: "decode (encode s @ [LF]) = Inr (s @ [LF])"
  using decode_encode_append [of s "[LF]"] by (simp add: LF_def)

lemma encode_append: "encode (a @ b) = encode a @ encode b"
  by (simp add: encode_def)

lemma encode_LF: "encode [LF] = [LF]"
  by (simp add: encode_def encode_char_def LF_def)

lemma LF_encode_char: "LF \<in> set (encode_char c) \<longleftrightarrow> c = LF"
proof (cases "(of_char c :: nat) < 128")
  case True
  then show ?thesis by (auto simp: encode_char_def)
next
  case False
  have "(of_char c :: nat) < 256" by simp
  define n where "n = (of_char c :: nat)"
  have n: "128 \<le> n" "n < 256" using False by (simp_all add: n_def)
  have d: "n div 64 = 2 \<or> n div 64 = 3" using n by (rule div64_cases)
  have of_LF: "(of_char LF :: nat) = 10" by (simp add: LF_def)
  have "c \<noteq> LF" using False of_LF by auto
  moreover have "(of_char (char_of (192 + n div 64)) :: nat) \<noteq> of_char LF"
    using d by (auto simp: of_LF)
  then have "char_of (192 + n div 64) \<noteq> LF" by (simp only: of_char_eq_iff not_False_eq_True)
  moreover have "(of_char (char_of (128 + n mod 64)) :: nat) \<noteq> of_char LF"
    by (simp add: of_LF)
  then have "char_of (128 + n mod 64) \<noteq> LF" by (simp only: of_char_eq_iff not_False_eq_True)
  ultimately show ?thesis using False
    by (auto simp add: encode_char_def n_def[symmetric])
qed

lemma LF_encode: "LF \<in> set (encode s) \<longleftrightarrow> LF \<in> set s"
  by (induction s) (auto simp: encode_def LF_encode_char)

lemma isspace_LF: "isspace LF"
  by (simp add: isspace_def LF_def)

lemma strip_LF: "strip (s @ [LF]) = strip s"
proof (cases "\<forall>c\<in>set s. isspace c")
  case True
  then have "dropWhile isspace s = []"
    by (simp only: dropWhile_eq_Nil_conv)
  moreover from True isspace_LF have "\<forall>c\<in>set (s @ [LF]). isspace c"
    by simp
  then have "dropWhile isspace (s @ [LF]) = []"
    by (simp only: dropWhile_eq_Nil_conv)
  ultimately show ?thesis by (simp only: strip_def)
next
  case False
  then obtain x where "x \<in> set s" and "\<not> isspace x" by blast
  then have "dropWhile isspace (s @ [LF]) = dropWhile isspace s @ [LF]"
    by (rule dropWhile_append1)
  then show ?thesis by (simp add: strip_def isspace_LF)
qed

section \<open>One exchange on the port\<close>

lemma read_until_line:
  assumes "is_open t" and "inbound t = l @ LF # rest" and "LF \<notin> set l"
  shows "read_until_async LF t =
           (Returns (l @ [LF]), t\<lparr>calls := calls t @ [ReadUntil LF], inbound := rest\<rparr>)"
proof -
  have ne: "b \<noteq> LF" if "b \<in> set l" for b
    using that assms(3) by auto
  have tw: "takeWhile (\<lambda>b. b \<noteq> LF) (l @ LF # rest) = l"
    by (simp add: takeWhile_append2 ne)
  have dw: "dropWhile (\<lambda>b. b \<noteq> LF) (l @ LF # rest) = LF # rest"
    by (simp add: dropWhile_append2 ne)
  show ?thesis
    using assms(1) by (simp add: read_until_async_def Let_def assms(2) tw dw)
qed

lemma read_until_blocks:
  assumes "is_open t" and "LF \<notin> set (inbound t)"
  shows "read_until_async LF t =
           (Blocks, t\<lparr>calls := calls t @ [ReadUntil LF], inbound := []\<rparr>)"
  using assms by (simp add: read_until_async_def Let_def)

lemma send_command_line:
  assumes "is_open t" and "inbound t = encode line @ LF # rest" and "LF \<notin> set line"
  shows "send_command command t =
           (Returns (strip line),
            t\<lparr>calls := calls t @ [Write (encode command @ [LF]), ReadUntil LF],
              outbound := outbound t @ encode command @ [LF],
              inbound := rest\<rparr>)"
proof -
  let ?data = "encode command @ [LF]"
  let ?t1 = "t\<lparr>calls := calls t @ [Write ?data], outbound := outbound t @ ?data\<rparr>"
  have w: "write_async (encode (command @ [LF])) t = (Returns (length ?data), ?t1)"
    using assms(1) by (simp add: write_async_def Let_def encode_append encode_LF)
  have "LF \<notin> set (encode line)"
    using assms(3) by (simp add: LF_encode)
  then have r: "read_until_async LF ?t1 =
      (Returns (encode line @ [LF]), ?t1\<lparr>calls := calls ?t1 @ [ReadUntil LF], inbound := rest\<rparr>)"
    using assms(1,2) by (intro read_until_line) simp_all
  show ?thesis
    by (simp add: send_command_def and_then_def w r decode_encode_line strip_LF)
qed

lemma send_command_blocks:
  assumes "is_open t" and "LF \<notin> set (inbound t)"
  shows "send_command command t =
           (Blocks,
            t\<lparr>calls := calls t @ [Write (encode command @ [LF]), ReadUntil LF],
              outbound := outbound t @ encode command @ [LF],
              inbound := []\<rparr>)"
proof -
  let ?data = "encode command @ [LF]"
  let ?t1 = "t\<lparr>calls := calls t @ [Write ?data], outbound := outbound t @ ?data\<rparr>"
  have w: "write_async (encode (command @ [LF])) t = (Returns (length ?data), ?t1)"
    using assms(1) by (simp add: write_async_def Let_def encode_append encode_LF)
  have r: "read_until_async LF ?t1 =
      (Blocks, ?t1\<lparr>calls := calls ?t1 @ [ReadUntil LF], inbound := []\<rparr>)"
    using assms by (intro read_until_blocks) simp_all
  show ?thesis
    by (simp add: send_command_def and_then_def w r)
qed

lemma send_command_closed:
  assumes "\<not> is_open t"
  shows "send_command command t =
           (Raises SerialException, t\<lparr>calls := calls t @ [Write (encode command @ [LF])]\<rparr>)"
  using assms by (simp add: send_command_def and_then_def write_async_def Let_def encode_append encode_LF)

section \<open>Matching the patterns\<close>

lemma first_some_None: "(\<And>x. x \<in> set xs \<Longrightarrow> x = None) \<Longrightarrow> first_some xs = None"
  by (induction xs rule: first_some.induct) auto

lemma rev_upt_Suc: "1 \<le> n \<Longrightarrow> rev [1 ..< Suc n] = n # rev [1 ..< n]"
  by simp

lemma group_greedy:
  assumes "\<And>k. 1 \<le> k \<Longrightarrow> k < n \<Longrightarrow> f k = None"
  shows "first_some (map f (rev [1 ..< Suc n])) = (if n = 0 then None else f n)"
proof (cases "n = 0")
  case True
  then show ?thesis by simp
next
  case False
  have rest: "first_some (map f (rev [1 ..< n])) = None"
    by (rule first_some_None) (auto simp: assms)
  from False have "rev [1 ..< Suc n] = n # rev [1 ..< n]"
    by (simp add: rev_upt_Suc)
  then have "first_some (map f (rev [1 ..< Suc n])) = first_some (f n # map f (rev [1 ..< n]))"
    by simp
  also have "\<dots> = f n"
    using rest by (cases "f n") simp_all
  finally show ?thesis using False by simp
qed

lemma group_last:
  assumes "\<And>k. f k \<noteq> None"
  shows "first_some (map f (rev [1 ..< Suc n])) = (if n = 0 then None else f n)"
proof (cases "n = 0")
  case True
  then show ?thesis by simp
next
  case False
  then have "rev [1 ..< Suc n] = n # rev [1 ..< n]"
    by (simp add: rev_upt_Suc)
  then have "first_some (map f (rev [1 ..< Suc n])) = first_some (f n # map f (rev [1 ..< n]))"
    by simp
  also have "\<dots> = f n"
    using assms [of n] by (cases "f n") simp_all
  finally show ?thesis using False by simp
qed

lemma take_run: "take (length (takeWhile P s)) s = takeWhile P s"
  by (rule takeWhile_eq_take [symmetric])

lemma drop_run: "drop (length (takeWhile P s)) s = dropWhile P s"
  by (rule dropWhile_eq_drop [symmetric])

lemma inside_run:
  assumes "k < length (takeWhile P s)"
  shows "\<exists>x xs. drop k s = x # xs \<and> P x"
proof -
  have len: "length (takeWhile P s) \<le> length s" by (rule length_takeWhile_le)
  with assms have "k < length s" by simp
  then have "drop k s = s ! k # drop (Suc k) s"
    by (simp add: Cons_nth_drop_Suc)
  moreover have "P (s ! k)"
    using assms by (metis nth_mem set_takeWhileD takeWhile_nth)
  ultimately show ?thesis by blast
qed

declare re_match.simps(3) [simp del]

lemma re_match_group_lit:
  assumes "m \<noteq> []" and "\<not> num_char (hd m)"
  shows "re_match (NumGroup # Lit m # p) s =
           (if takeWhile num_char s = [] then None
            else map_option ((#) (takeWhile num_char s))
                   (re_match (Lit m # p) (dropWhile num_char s)))"
proof -
  let ?n = "length (takeWhile num_char s)"
  let ?f = "\<lambda>k. map_option ((#) (take k s)) (re_match (Lit m # p) (drop k s))"
  have "?f k = None" if "1 \<le> k" and "k < ?n" for k
  proof -
    from inside_run [OF that(2)] obtain x xs where "drop k s = x # xs" and "num_char x"
      by blast
    with assms have "\<not> prefix m (drop k s)" by (cases m) auto
    then show ?thesis by simp
  qed
  then have "first_some (map ?f (rev [1 ..< Suc ?n])) = (if ?n = 0 then None else ?f ?n)"
    by (rule group_greedy)
  then show ?thesis
    by (simp add: re_match.simps(3) take_run drop_run)
qed

lemma re_match_group_end:
  "re_match [NumGroup] s =
     (if takeWhile num_char s = [] then None else Some [takeWhile num_char s])"
proof -
  let ?n = "length (takeWhile num_char s)"
  let ?f = "\<lambda>k. map_option ((#) (take k s)) (re_match [] (drop k s))"
  have "first_some (map ?f (rev [1 ..< Suc ?n])) = (if ?n = 0 then None else ?f ?n)"
    by (rule group_last) simp
  then show ?thesis
    by (simp add: re_match.simps(3) take_run)
qed

text \<open>
  The pattern \<^verbatim>\<open>P([\d.]+)M([\d.]+)\<close> for literal texts \<open>P\<close> and \<open>M\<close>, where \<open>M\<close>
  starts with a character that is neither digit nor dot: the first group is the longest run
  and never gives a character back.
\<close>

lemma re_match_two_fields:
  assumes "m \<noteq> []" and "\<not> num_char (hd m)"
  shows "re_match [Lit P, NumGroup, Lit m, NumGroup] s =
     (if prefix P s
      then (let s1 = drop (length P) s; a = takeWhile num_char s1; s2 = dropWhile num_char s1
            in if a = [] then None
               else if prefix m s2
               then (let z = takeWhile num_char (drop (length m) s2)
                     in if z = [] then None else Some [a, z])
               else None)
      else None)"
  by (simp add: re_match_group_lit [OF assms] re_match_group_end Let_def)

lemma re_match_one_field:
  "re_match [Lit P, NumGroup] s =
     (if prefix P s
      then (let a = takeWhile num_char (drop (length P) s)
            in if a = [] then None else Some [a])
      else None)"
  by (simp add: re_match_group_end Let_def)

lemma run_of_field:
  assumes "list_all num_char a" and "trailing = [] \<or> \<not> num_char (hd trailing)"
  shows "takeWhile num_char (a @ trailing) = a" and "dropWhile num_char (a @ trailing) = trailing"
proof -
  have a: "num_char x" if "x \<in> set a" for x
    using that assms(1) by (simp add: list_all_iff)
  have t: "takeWhile num_char trailing = []" "dropWhile num_char trailing = trailing"
    using assms(2) by (cases trailing; simp)+
  show "takeWhile num_char (a @ trailing) = a"
    by (simp add: takeWhile_append2 a t)
  show "dropWhile num_char (a @ trailing) = trailing"
    by (simp add: dropWhile_append2 a t)
qed

lemma two_fields_match:
  assumes "m \<noteq> []" and "\<not> num_char (hd m)"
    and "a \<noteq> []" and "z \<noteq> []" and "list_all num_char a" and "list_all num_char z"
    and "trailing = [] \<or> \<not> num_char (hd trailing)"
  shows "re_match [Lit P, NumGroup, Lit m, NumGroup] (P @ a @ m @ z @ trailing) = Some [a, z]"
proof -
  have 1: "takeWhile num_char (a @ m @ z @ trailing) = a"
    "dropWhile num_char (a @ m @ z @ trailing) = m @ z @ trailing"
    using run_of_field [OF assms(5), of "m @ z @ trailing"] assms(1,2)
    by simp_all
  have 2: "takeWhile num_char (z @ trailing) = z"
    using run_of_field [OF assms(6,7)] by simp
  show ?thesis
    using assms(3,4) by (subst re_match_two_fields [OF assms(1,2)]) (simp add: Let_def 1 2)
qed

lemma one_field_match:
  assumes "a \<noteq> []" and "list_all num_char a" and "trailing = [] \<or> \<not> num_char (hd trailing)"
  shows "re_match [Lit P, NumGroup] (P @ a @ trailing) = Some [a]"
proof -
  have "takeWhile num_char (a @ trailing) = a"
    using run_of_field [OF assms(2,3)] by simp
  then show ?thesis
    using assms(1) by (subst re_match_one_field) (simp add: Let_def)
qed

section \<open>What float() accepts\<close>

text \<open>
  The fields of digits and dots that \<^verbatim>\<open>float()\<close> accepts are those with at least one digit
  and at most one dot.
\<close>

lemma digit_not_dot: "isdigit c \<Longrightarrow> c \<noteq> CHR ''.''"
  by (auto simp: isdigit_def)

lemma no_dot_in_digits: "list_all isdigit ds \<Longrightarrow> filter (\<lambda>c. c = CHR ''.'') ds = []"
  by (induction ds) (auto dest: digit_not_dot)

lemma digits_of_field:
  "list_all num_char fp \<Longrightarrow> filter (\<lambda>c. c = CHR ''.'') fp = [] \<Longrightarrow> list_all isdigit fp"
  by (induction fp) (auto simp: num_char_def split: if_splits)

lemma py_float_accepts:
  assumes "list_all num_char s"
  shows "(\<exists>x. py_float s = Inr x) \<longleftrightarrow>
           (\<exists>c\<in>set s. isdigit c) \<and> length (filter (\<lambda>c. c = CHR ''.'') s) \<le> 1"
proof -
  define ip where "ip = takeWhile isdigit s"
  define r where "r = dropWhile isdigit s"
  have s: "s = ip @ r" by (simp add: ip_def r_def)
  have ip: "list_all isdigit ip"
    by (auto simp: ip_def list_all_iff dest: set_takeWhileD)
  have pf: "py_float s =
      (case r of
         [] \<Rightarrow> if ip = [] then Inl (float_error s) else Inr (of_nat (decimal ip))
       | c # fp \<Rightarrow>
           if c = CHR ''.'' \<and> list_all isdigit fp \<and> ip @ fp \<noteq> []
           then Inr (of_nat (decimal (ip @ fp)) / 10 ^ length fp)
           else Inl (float_error s))"
    unfolding py_float_def Let_def ip_def r_def by (rule refl)
  have e': "(\<exists>c\<in>set ip. isdigit c) \<longleftrightarrow> ip \<noteq> []"
    using ip by (cases ip) (auto simp: list_all_iff)
  show ?thesis
  proof (cases r)
    case Nil
    have lhs: "(\<exists>x. py_float s = Inr x) \<longleftrightarrow> ip \<noteq> []"
      unfolding pf Nil by simp
    have rhs: "(\<exists>c\<in>set s. isdigit c) \<and> length (filter (\<lambda>c. c = CHR ''.'') s) \<le> 1
                 \<longleftrightarrow> (\<exists>c\<in>set ip. isdigit c)"
      using ip by (simp add: s Nil no_dot_in_digits)
    show ?thesis
      unfolding lhs rhs using e' by simp
  next
    case (Cons c fp)
    have "\<not> isdigit c"
      using Cons hd_dropWhile [of isdigit s] by (simp add: r_def)
    moreover have "num_char c" and fp: "list_all num_char fp"
      using assms Cons by (simp_all add: s)
    ultimately have c: "c = CHR ''.''" by (simp add: num_char_def)
    have d: "list_all isdigit fp \<longleftrightarrow> filter (\<lambda>c. c = CHR ''.'') fp = []"
      using fp by (auto intro: no_dot_in_digits digits_of_field)
    have e: "(\<exists>c\<in>set fp. isdigit c) \<longleftrightarrow> fp \<noteq> []" if "list_all isdigit fp"
      using that by (cases fp) (auto simp: list_all_iff)
    have lhs: "(\<exists>x. py_float s = Inr x) \<longleftrightarrow> list_all isdigit fp \<and> ip @ fp \<noteq> []"
      unfolding pf Cons c by simp
    have nd: "\<not> isdigit CHR ''.''" by (simp add: isdigit_def)
    have rhs: "(\<exists>c\<in>set s. isdigit c) \<and> length (filter (\<lambda>c. c = CHR ''.'') s) \<le> 1
                 \<longleftrightarrow> ((\<exists>c\<in>set ip. isdigit c) \<or> (\<exists>c\<in>set fp. isdigit c))
                       \<and> filter (\<lambda>c. c = CHR ''.'') fp = []"
      using ip nd by (auto simp: s Cons c no_dot_in_digits)
    show ?thesis
      unfolding lhs rhs using d e e' by auto
  qed
qed

section \<open>Parsing the responses\<close>

lemma not_num_char_space: "\<not> num_char CHR '' ''"
  by (simp add: num_char_def isdigit_def)

lemma two_fields_run:
  "re_match [Lit P, NumGroup, Lit '' AZ: '', NumGroup] s =
     (if prefix P s
      then (let s1 = drop (length P) s; a = takeWhile num_char s1; s2 = dropWhile num_char s1
            in if a = [] then None
               else if prefix '' AZ: '' s2
               then (let z = takeWhile num_char (drop (length '' AZ: '') s2)
                     in if z = [] then None else Some [a, z])
               else None)
      else None)"
  by (rule re_match_two_fields) (simp_all add: not_num_char_space)

lemmas position_run = two_fields_run [of "''ALT: ''", folded position_re_def]
lemmas aborted_run = two_fields_run [of "''Aborted at ALT: ''", folded aborted_re_def]
lemmas temperature_run = re_match_one_field [of "''Temperature: ''", folded temperature_re_def]
lemmas humidity_run = re_match_one_field [of "''Humidity: ''", folded humidity_re_def]

lemma encode_GET_POS: "encode ''GET_POS'' = ''GET_POS''"
  by (simp add: encode_def encode_char_def)

lemma encode_GET_TEMP: "encode ''GET_TEMP'' = ''GET_TEMP''"
  by (simp add: encode_def encode_char_def)

lemma encode_GET_HUMI: "encode ''GET_HUMI'' = ''GET_HUMI''"
  by (simp add: encode_def encode_char_def)

lemma get_position_line:
  assumes "is_open t" and "inbound t = encode line @ LF # rest" and "LF \<notin> set line"
  shows "get_position t =
           (parse_position (strip line),
            t\<lparr>calls := calls t @ [Write ''GET_POS\<newline>'', ReadUntil LF],
              outbound := outbound t @ ''GET_POS\<newline>'',
              inbound := rest\<rparr>)"
  by (simp add: get_position_def send_command_line [OF assms] and_then_def encode_GET_POS LF_def)

lemma get_temperature_line:
  assumes "is_open t" and "inbound t = encode line @ LF # rest" and "LF \<notin> set line"
  shows "get_temperature t =
           (parse_temperature (strip line),
            t\<lparr>calls := calls t @ [Write ''GET_TEMP\<newline>'', ReadUntil LF],
              outbound := outbound t @ ''GET_TEMP\<newline>'',
              inbound := rest\<rparr>)"
  by (simp add: get_temperature_def send_command_line [OF assms] and_then_def encode_GET_TEMP LF_def)

lemma get_humidity_line:
  assumes "is_open t" and "inbound t = encode line @ LF # rest" and "LF \<notin> set line"
  shows "get_humidity t =
           (parse_humidity (strip line),
            t\<lparr>calls := calls t @ [Write ''GET_HUMI\<newline>'', ReadUntil LF],
              outbound := outbound t @ ''GET_HUMI\<newline>'',
              inbound := rest\<rparr>)"
  by (simp add: get_humidity_def send_command_line [OF assms] and_then_def encode_GET_HUMI LF_def)

lemma float_pair_ok:
  "py_float a = Inr x \<Longrightarrow> py_float z = Inr y \<Longrightarrow> float_pair [a, z] = Returns (x, y)"
  by (simp add: float_pair_def)

lemma position_not_aborted: "re_match position_re (''Aborted at ALT: '' @ s) = None"
  by (simp add: position_run)

lemma parse_position_fields:
  assumes "P = ''ALT: '' \<or> P = ''Aborted at ALT: ''"
    and "a \<noteq> []" and "z \<noteq> []" and "list_all num_char a" and "list_all num_char z"
    and "trailing = [] \<or> \<not> num_char (hd trailing)"
  shows "parse_position (P @ a @ '' AZ: '' @ z @ trailing) = float_pair [a, z]"
proof -
  have m: "re_match [Lit P, NumGroup, Lit '' AZ: '', NumGroup] (P @ a @ '' AZ: '' @ z @ trailing)
             = Some [a, z]" for P
    using assms(2-6) by (intro two_fields_match) (simp_all add: not_num_char_space)
  from assms(1) show ?thesis
  proof
    assume "P = ''ALT: ''"
    then show ?thesis
      using m [of "''ALT: ''"] by (simp add: parse_position_def position_re_def)
  next
    assume P: "P = ''Aborted at ALT: ''"
    have "re_match position_re (P @ a @ '' AZ: '' @ z @ trailing) = None"
      unfolding P by (rule position_not_aborted)
    moreover have "re_match aborted_re (P @ a @ '' AZ: '' @ z @ trailing) = Some [a, z]"
      unfolding P aborted_re_def by (rule m)
    ultimately show ?thesis
      by (simp add: parse_position_def)
  qed
qed

lemma parse_position_mismatch:
  assumes "re_match position_re response = None" and "re_match aborted_re response = None"
  shows "parse_position response = Raises (ValueError (''Invalid position response: '' @ response))"
  using assms by (simp add: parse_position_def)

lemma parse_temperature_field:
  assumes "a \<noteq> []" and "list_all num_char a" and "trailing = [] \<or> \<not> num_char (hd trailing)"
  shows "parse_temperature (''Temperature: '' @ a @ trailing) = float_single [a]"
  using one_field_match [OF assms, of "''Temperature: ''"]
  by (simp add: parse_temperature_def temperature_re_def)

lemma parse_humidity_field:
  assumes "a \<noteq> []" and "list_all num_char a" and "trailing = [] \<or> \<not> num_char (hd trailing)"
  shows "parse_humidity (''Humidity: '' @ a @ trailing) = float_single [a]"
  using one_field_match [OF assms, of "''Humidity: ''"]
  by (simp add: parse_humidity_def humidity_re_def)

lemma float_single_ok: "py_float a = Inr x \<Longrightarrow> float_single [a] = Returns x"
  by (simp add: float_single_def)

lemma parse_temperature_mismatch:
  "re_match temperature_re response = None \<Longrightarrow>
     parse_temperature response = Raises (ValueError (''Invalid temperature response: '' @ response))"
  by (simp add: parse_temperature_def)

lemma parse_humidity_mismatch:
  "re_match humidity_re response = None \<Longrightarrow>
     parse_humidity response = Raises (ValueError (''Invalid humidity response: '' @ response))"
  by (simp add: parse_humidity_def)

section \<open>Commands without a parsed answer\<close>

declare str_nat.simps [simp del]

lemma encode_ascii: "(\<And>c. c \<in> set s \<Longrightarrow> (of_char c :: nat) < 128) \<Longrightarrow> encode s = s"
proof (induction s)
  case Nil
  show ?case by (simp add: encode_def)
next
  case (Cons c s)
  have "encode (c # s) = encode_char c @ encode s" by (simp add: encode_def)
  also have "encode_char c = [c]" using Cons.prems [of c] by (simp add: encode_char_def)
  also have "encode s = s" using Cons.prems by (intro Cons.IH) simp
  finally show ?case by simp
qed

lemma digit_ascii: "d < 10 \<Longrightarrow> (of_char (char_of (48 + d :: nat)) :: nat) < 128"
  by simp

lemma str_nat_ascii: "c \<in> set (str_nat n) \<Longrightarrow> (of_char c :: nat) < 128"
proof (induction n arbitrary: c rule: str_nat.induct)
  case (1 n)
  show ?case
  proof (cases "n < 10")
    case True
    with "1.prems" have "c = char_of (48 + n)" by (simp add: str_nat.simps [of n])
    with True show ?thesis by (simp add: digit_ascii)
  next
    case False
    with "1.prems" have "c \<in> set (str_nat (n div 10)) \<or> c = char_of (48 + n mod 10)"
      by (auto simp: str_nat.simps [of n])
    then show ?thesis
    proof
      assume "c \<in> set (str_nat (n div 10))"
      with False show ?thesis by (intro "1.IH") simp_all
    next
      assume "c = char_of (48 + n mod 10)"
      then show ?thesis by (simp add: digit_ascii)
    qed
  qed
qed

lemma str_int_ascii: "c \<in> set (str_int i) \<Longrightarrow> (of_char c :: nat) < 128"
  by (auto simp: str_int_def dest: str_nat_ascii split: if_splits)

lemma encode_SET_SPEED: "encode (''SET_SPEED '' @ str_int speed) = ''SET_SPEED '' @ str_int speed"
  by (rule encode_ascii) (auto dest: str_int_ascii)

lemma set_speed_line:
  assumes "1 \<le> speed" and "speed \<le> 15"
    and "is_open t" and "inbound t = encode line @ LF # rest" and "LF \<notin> set line"
  shows "set_speed speed t =
           (Returns (),
            t\<lparr>calls := calls t @ [Write (''SET_SPEED '' @ str_int speed @ [LF]), ReadUntil LF],
              outbound := outbound t @ ''SET_SPEED '' @ str_int speed @ [LF],
              inbound := rest\<rparr>)"
proof -
  have "send_command (''SET_SPEED '' @ str_int speed) t =
          (Returns (strip line),
           t\<lparr>calls := calls t @ [Write (encode (''SET_SPEED '' @ str_int speed) @ [LF]), ReadUntil LF],
             outbound := outbound t @ encode (''SET_SPEED '' @ str_int speed) @ [LF],
             inbound := rest\<rparr>)"
    by (rule send_command_line [OF assms(3-5)])
  then have "send_command (''SET_SPEED '' @ str_int speed) t =
          (Returns (strip line),
           t\<lparr>calls := calls t @ [Write (''SET_SPEED '' @ str_int speed @ [LF]), ReadUntil LF],
             outbound := outbound t @ ''SET_SPEED '' @ str_int speed @ [LF],
             inbound := rest\<rparr>)"
    by (simp only: encode_SET_SPEED append_assoc)
  then show ?thesis
    using assms(1,2) by (simp add: set_speed_def and_then_def)
qed

declare wait_for_ready.simps [simp del]

lemma wait_for_ready_closed:
  "\<not> is_open t \<Longrightarrow>
     wait_for_ready t = (Raises SerialException, t\<lparr>calls := calls t @ [ReadUntil LF]\<rparr>)"
  by (subst wait_for_ready.simps) (simp add: read_until_async_def Let_def)

section \<open>Waiting for the readiness line\<close>

lemma wait_for_ready_skip:
  assumes "is_open t" and "inbound t = encode l @ LF # rest" and "LF \<notin> set l"
    and "\<not> sublist ready_phrase (strip l)"
  shows "wait_for_ready t =
           wait_for_ready (t\<lparr>calls := calls t @ [ReadUntil LF], inbound := rest\<rparr>)"
proof -
  have "LF \<notin> set (encode l)" using assms(3) by (simp add: LF_encode)
  then have r: "read_until_async LF t =
      (Returns (encode l @ [LF]), t\<lparr>calls := calls t @ [ReadUntil LF], inbound := rest\<rparr>)"
    using assms(1,2) by (intro read_until_line) simp_all
  show ?thesis
    using assms(4) by (subst wait_for_ready.simps) (simp add: r decode_encode_line strip_LF)
qed

lemma wait_for_ready_hit:
  assumes "is_open t" and "inbound t = encode m @ LF # rest" and "LF \<notin> set m"
    and "sublist ready_phrase (strip m)"
  shows "wait_for_ready t =
           (Returns (),
            t\<lparr>calls := calls t @ [ReadUntil LF], inbound := rest,
              stdout := stdout t @ [''Arduino is ready!'']\<rparr>)"
proof -
  have "LF \<notin> set (encode m)" using assms(3) by (simp add: LF_encode)
  then have r: "read_until_async LF t =
      (Returns (encode m @ [LF]), t\<lparr>calls := calls t @ [ReadUntil LF], inbound := rest\<rparr>)"
    using assms(1,2) by (intro read_until_line) simp_all
  show ?thesis
    using assms(4) by (subst wait_for_ready.simps) (simp add: r decode_encode_line strip_LF)
qed

lemma wait_for_ready_starved:
  assumes "is_open t" and "LF \<notin> set (inbound t)"
  shows "wait_for_ready t = (Blocks, t\<lparr>calls := calls t @ [ReadUntil LF], inbound := []\<rparr>)"
  by (subst wait_for_ready.simps) (simp add: read_until_blocks [OF assms])

lemma wait_for_ready_lines:
  assumes "is_open t"
    and "\<forall>l\<in>set pre. LF \<notin> set l \<and> \<not> sublist ready_phrase (strip l)"
    and "inbound t = concat (map (\<lambda>l. encode l @ [LF]) pre) @ tail"
  shows "wait_for_ready t =
           wait_for_ready
             (t\<lparr>calls := calls t @ replicate (length pre) (ReadUntil LF), inbound := tail\<rparr>)"
  using assms
proof (induction pre arbitrary: t)
  case Nil
  then have "t\<lparr>calls := calls t @ replicate (length []) (ReadUntil LF), inbound := tail\<rparr> = t"
    by simp
  then show ?case by simp
next
  case (Cons l pre)
  let ?t1 = "t\<lparr>calls := calls t @ [ReadUntil LF],
               inbound := concat (map (\<lambda>l. encode l @ [LF]) pre) @ tail\<rparr>"
  have "wait_for_ready t = wait_for_ready ?t1"
    using Cons.prems by (intro wait_for_ready_skip [of t l]) simp_all
  also have "\<dots> = wait_for_ready
      (?t1\<lparr>calls := calls ?t1 @ replicate (length pre) (ReadUntil LF), inbound := tail\<rparr>)"
    using Cons.prems by (intro Cons.IH) simp_all
  finally show ?case by simp
qed

section \<open>A formatted position line\<close>






section \<open>Properties of the client\<close>

text \<open>
  C1. On an open port \<open>send_command\<close> writes the bytes of the command followed by one
  newline, in one write. When the peer has sent a line, it reads up to that line's newline
  and returns the line without its leading and trailing whitespace, leaving the bytes after
  the newline unread. When no newline is to come, it never returns. With the command
  \<open>LED_ON\<close> the bytes written are \<open>LED_ON\<close> and a newline.
\<close>

theorem send_command_exchange:
  assumes "is_open t"
  shows "(inbound t = encode line @ LF # rest \<and> LF \<notin> set line \<longrightarrow>
            send_command command t =
              (Returns (strip line),
               t\<lparr>calls := calls t @ [Write (encode command @ [LF]), ReadUntil LF],
                 outbound := outbound t @ encode command @ [LF],
                 inbound := rest\<rparr>))
       \<and> (LF \<notin> set (inbound t) \<longrightarrow>
            send_command command t =
              (Blocks,
               t\<lparr>calls := calls t @ [Write (encode command @ [LF]), ReadUntil LF],
                 outbound := outbound t @ encode command @ [LF],
                 inbound := []\<rparr>))"
  using assms send_command_line [of t line rest command] send_command_blocks [of t command]
  by blast

theorem send_command_exchange_witness:
  "send_command ''LED_ON''
     \<lparr>calls = [], outbound = [], inbound = ''  OK \<newline>next\<newline>'', is_open = True, stdout = []\<rparr>
     = (Returns ''OK'',
        \<lparr>calls = [Write ''LED_ON\<newline>'', ReadUntil LF], outbound = ''LED_ON\<newline>'',
          inbound = ''next\<newline>'', is_open = True, stdout = []\<rparr>)
   \<and> send_command ''LED_ON''
     \<lparr>calls = [], outbound = [], inbound = ''OK'', is_open = True, stdout = []\<rparr>
     = (Blocks,
        \<lparr>calls = [Write ''LED_ON\<newline>'', ReadUntil LF], outbound = ''LED_ON\<newline>'',
          inbound = [], is_open = True, stdout = []\<rparr>)"
  using send_command_exchange
          [of "\<lparr>calls = [], outbound = [], inbound = ''  OK \<newline>next\<newline>'', is_open = True, stdout = []\<rparr>"
              "''  OK ''" "''next\<newline>''" "''LED_ON''"]
        send_command_exchange
          [of "\<lparr>calls = [], outbound = [], inbound = ''OK'', is_open = True, stdout = []\<rparr>"
              "[]" "[]" "''LED_ON''"]
  by (simp add: encode_def encode_char_def strip_def isspace_def LF_def)

text \<open>
  C2, as the code has it. \<open>get_position\<close> sends \<open>GET_POS\<close> and matches the stripped response
  against \<^verbatim>\<open>ALT: ([\d.]+) AZ: ([\d.]+)\<close> and then against
  \<^verbatim>\<open>Aborted at ALT: ([\d.]+) AZ: ([\d.]+)\<close>, both anchored at the start. For a response
  of either shape whose two fields \<^verbatim>\<open>float()\<close> accepts, it returns the pair of the two
  values, whatever follows the second field. The responses \<open>ALT: 45.0 AZ: 90.0\<close> and
  \<open>Aborted at ALT: 39.90 AZ: 246.45\<close> give \<open>(45.0, 90.0)\<close> and \<open>(39.90, 246.45)\<close>.
\<close>

theorem get_position_parsed:
  assumes "is_open t" and "inbound t = encode line @ LF # rest" and "LF \<notin> set line"
    and "strip line = P @ a @ '' AZ: '' @ z @ trailing"
    and "P = ''ALT: '' \<or> P = ''Aborted at ALT: ''"
    and "a \<noteq> []" and "z \<noteq> []" and "list_all num_char a" and "list_all num_char z"
    and "trailing = [] \<or> \<not> num_char (hd trailing)"
    and "py_float a = Inr altitude" and "py_float z = Inr azimuth"
  shows "get_position t =
           (Returns (altitude, azimuth),
            t\<lparr>calls := calls t @ [Write ''GET_POS\<newline>'', ReadUntil LF],
              outbound := outbound t @ ''GET_POS\<newline>'',
              inbound := rest\<rparr>)"
  by (simp only: get_position_line [OF assms(1-3)] assms(4)
        parse_position_fields [OF assms(5-10)] float_pair_ok [OF assms(11,12)])

theorem get_position_parsed_witness:
  "get_position
     \<lparr>calls = [], outbound = [], inbound = ''ALT: 45.0 AZ: 90.0\<newline>'', is_open = True, stdout = []\<rparr>
     = (Returns (45, 90),
        \<lparr>calls = [Write ''GET_POS\<newline>'', ReadUntil LF], outbound = ''GET_POS\<newline>'',
          inbound = [], is_open = True, stdout = []\<rparr>)
   \<and> get_position
     \<lparr>calls = [], outbound = [], inbound = ''Aborted at ALT: 39.90 AZ: 246.45 deg\<newline>'',
       is_open = True, stdout = []\<rparr>
     = (Returns (399 / 10, 4929 / 20),
        \<lparr>calls = [Write ''GET_POS\<newline>'', ReadUntil LF], outbound = ''GET_POS\<newline>'',
          inbound = [], is_open = True, stdout = []\<rparr>)"
  using get_position_parsed
          [of "\<lparr>calls = [], outbound = [], inbound = ''ALT: 45.0 AZ: 90.0\<newline>'', is_open = True, stdout = []\<rparr>"
              "''ALT: 45.0 AZ: 90.0''" "[]" "''ALT: ''" "''45.0''" "''90.0''" "[]" 45 90]
        get_position_parsed
          [of "\<lparr>calls = [], outbound = [], inbound = ''Aborted at ALT: 39.90 AZ: 246.45 deg\<newline>'',
                 is_open = True, stdout = []\<rparr>"
              "''Aborted at ALT: 39.90 AZ: 246.45 deg''" "[]" "''Aborted at ALT: ''"
              "''39.90''" "''246.45''" "'' deg''" "399 / 10" "4929 / 20"]
  by (simp add: encode_def encode_char_def strip_def isspace_def LF_def num_char_def isdigit_def
        py_float_def decimal_def digit_val_def)

text \<open>
  C2 as stated promises the pair for every response that matches a grammar. The response
  \<open>ALT: 10.5 AZ: ..\<close> matches the first grammar with the groups \<open>10.5\<close> and \<open>..\<close>, and
  \<open>get_position\<close> raises the error of \<^verbatim>\<open>float("..")\<close> instead of returning a pair.
\<close>

theorem get_position_field_counterexample:
  "re_match position_re ''ALT: 10.5 AZ: ..'' = Some [''10.5'', ''..'']
   \<and> get_position
       \<lparr>calls = [], outbound = [], inbound = ''ALT: 10.5 AZ: ..\<newline>'', is_open = True, stdout = []\<rparr>
     = (Raises (float_error ''..''),
        \<lparr>calls = [Write ''GET_POS\<newline>'', ReadUntil LF], outbound = ''GET_POS\<newline>'',
          inbound = [], is_open = True, stdout = []\<rparr>)"
proof -
  have "get_position
       \<lparr>calls = [], outbound = [], inbound = ''ALT: 10.5 AZ: ..\<newline>'', is_open = True, stdout = []\<rparr>
     = (parse_position (strip ''ALT: 10.5 AZ: ..''),
        \<lparr>calls = [Write ''GET_POS\<newline>'', ReadUntil LF], outbound = ''GET_POS\<newline>'',
          inbound = [], is_open = True, stdout = []\<rparr>)"
    using get_position_line
      [of "\<lparr>calls = [], outbound = [], inbound = ''ALT: 10.5 AZ: ..\<newline>'', is_open = True, stdout = []\<rparr>"
          "''ALT: 10.5 AZ: ..''" "[]"]
    by (simp add: encode_def encode_char_def LF_def)
  then show ?thesis
    by (simp add: strip_def isspace_def parse_position_def position_run num_char_def isdigit_def
          Let_def float_pair_def py_float_def decimal_def digit_val_def)
qed

text \<open>
  C3. When the stripped response matches neither position grammar, \<open>get_position\<close> raises
  \<open>ValueError\<close> with the message \<open>Invalid position response: \<close> followed by the response.
  On the response \<open>garbage\<close> the message ends in \<open>garbage\<close>.
\<close>

theorem get_position_mismatch:
  assumes "is_open t" and "inbound t = encode line @ LF # rest" and "LF \<notin> set line"
    and "re_match position_re (strip line) = None"
    and "re_match aborted_re (strip line) = None"
  shows "get_position t =
           (Raises (ValueError (''Invalid position response: '' @ strip line)),
            t\<lparr>calls := calls t @ [Write ''GET_POS\<newline>'', ReadUntil LF],
              outbound := outbound t @ ''GET_POS\<newline>'',
              inbound := rest\<rparr>)"
  by (simp only: get_position_line [OF assms(1-3)] parse_position_mismatch [OF assms(4,5)])

theorem get_position_mismatch_witness:
  "get_position
     \<lparr>calls = [], outbound = [], inbound = ''garbage\<newline>'', is_open = True, stdout = []\<rparr>
     = (Raises (ValueError ''Invalid position response: garbage''),
        \<lparr>calls = [Write ''GET_POS\<newline>'', ReadUntil LF], outbound = ''GET_POS\<newline>'',
          inbound = [], is_open = True, stdout = []\<rparr>)"
  using get_position_mismatch
          [of "\<lparr>calls = [], outbound = [], inbound = ''garbage\<newline>'', is_open = True, stdout = []\<rparr>"
              "''garbage''" "[]"]
  by (simp add: encode_def encode_char_def strip_def isspace_def LF_def position_run aborted_run)

text \<open>
  C4. \<open>set_speed\<close> with a speed below 1 or above 15 raises \<open>ValueError\<close> and leaves the port as
  it was: no call is made on it. With a speed from 1 to 15, on an open port whose peer
  answers with a line, it makes one exchange: it writes \<open>SET_SPEED\<close>, a space, the decimal
  digits of the speed and a newline, and reads the one answer. The speeds 0 and 16 fail;
  1 and 15 send \<open>SET_SPEED 1\<close> and \<open>SET_SPEED 15\<close>.
\<close>

theorem set_speed_validated:
  "(speed < 1 \<or> 15 < speed \<longrightarrow>
      set_speed speed t = (Raises (ValueError ''Speed must be between 1 and 15 RPM.''), t))
   \<and> (1 \<le> speed \<and> speed \<le> 15 \<and> is_open t \<and> inbound t = encode line @ LF # rest \<and> LF \<notin> set line \<longrightarrow>
      set_speed speed t =
        (Returns (),
         t\<lparr>calls := calls t @ [Write (''SET_SPEED '' @ str_int speed @ [LF]), ReadUntil LF],
           outbound := outbound t @ ''SET_SPEED '' @ str_int speed @ [LF],
           inbound := rest\<rparr>))"
  using set_speed_line [of speed t line rest] by (auto simp: set_speed_def)

theorem set_speed_validated_witness:
  "set_speed 0 \<lparr>calls = [], outbound = [], inbound = ''OK\<newline>'', is_open = True, stdout = []\<rparr>
     = (Raises (ValueError ''Speed must be between 1 and 15 RPM.''),
        \<lparr>calls = [], outbound = [], inbound = ''OK\<newline>'', is_open = True, stdout = []\<rparr>)
   \<and> set_speed 16 \<lparr>calls = [], outbound = [], inbound = ''OK\<newline>'', is_open = True, stdout = []\<rparr>
     = (Raises (ValueError ''Speed must be between 1 and 15 RPM.''),
        \<lparr>calls = [], outbound = [], inbound = ''OK\<newline>'', is_open = True, stdout = []\<rparr>)
   \<and> set_speed 1 \<lparr>calls = [], outbound = [], inbound = ''OK\<newline>'', is_open = True, stdout = []\<rparr>
     = (Returns (),
        \<lparr>calls = [Write ''SET_SPEED 1\<newline>'', ReadUntil LF], outbound = ''SET_SPEED 1\<newline>'',
          inbound = [], is_open = True, stdout = []\<rparr>)
   \<and> set_speed 15 \<lparr>calls = [], outbound = [], inbound = ''OK\<newline>'', is_open = True, stdout = []\<rparr>
     = (Returns (),
        \<lparr>calls = [Write ''SET_SPEED 15\<newline>'', ReadUntil LF], outbound = ''SET_SPEED 15\<newline>'',
          inbound = [], is_open = True, stdout = []\<rparr>)"
  using set_speed_validated
          [of 0 "\<lparr>calls = [], outbound = [], inbound = ''OK\<newline>'', is_open = True, stdout = []\<rparr>"]
        set_speed_validated
          [of 16 "\<lparr>calls = [], outbound = [], inbound = ''OK\<newline>'', is_open = True, stdout = []\<rparr>"]
        set_speed_validated
          [of 1 "\<lparr>calls = [], outbound = [], inbound = ''OK\<newline>'', is_open = True, stdout = []\<rparr>"
              "''OK''" "[]"]
        set_speed_validated
          [of 15 "\<lparr>calls = [], outbound = [], inbound = ''OK\<newline>'', is_open = True, stdout = []\<rparr>"
              "''OK''" "[]"]
  by (simp add: encode_def encode_char_def LF_def str_int_def str_nat.simps char_of_def bit_Suc_0_iff)




text \<open>
  C6. \<open>wait_for_ready\<close> writes nothing. It reads line after line. When the peer has sent
  lines whose stripped text does not contain the readiness phrase and then a line whose
  stripped text contains it, \<open>wait_for_ready\<close> returns after one read for each of these lines,
  and the bytes after the newline of the matching line are still unread: the next read of
  \<open>send_command\<close> starts there. When no line with the phrase comes, it never returns.
\<close>

theorem wait_for_ready_first_match:
  assumes "is_open t"
    and "\<forall>l\<in>set pre. LF \<notin> set l \<and> \<not> sublist ready_phrase (strip l)"
  shows "(inbound t = concat (map (\<lambda>l. encode l @ [LF]) pre) @ encode m @ LF # rest
            \<and> LF \<notin> set m \<and> sublist ready_phrase (strip m) \<longrightarrow>
          wait_for_ready t =
            (Returns (),
             t\<lparr>calls := calls t @ replicate (Suc (length pre)) (ReadUntil LF),
               inbound := rest,
               stdout := stdout t @ [''Arduino is ready!'']\<rparr>))
       \<and> (inbound t = concat (map (\<lambda>l. encode l @ [LF]) pre) @ tail \<and> LF \<notin> set tail \<longrightarrow>
          wait_for_ready t =
            (Blocks,
             t\<lparr>calls := calls t @ replicate (Suc (length pre)) (ReadUntil LF),
               inbound := []\<rparr>))"
proof (intro conjI impI)
  assume h: "inbound t = concat (map (\<lambda>l. encode l @ [LF]) pre) @ encode m @ LF # rest
            \<and> LF \<notin> set m \<and> sublist ready_phrase (strip m)"
  let ?t1 = "t\<lparr>calls := calls t @ replicate (length pre) (ReadUntil LF),
               inbound := encode m @ LF # rest\<rparr>"
  from h have i: "inbound t = concat (map (\<lambda>l. encode l @ [LF]) pre) @ encode m @ LF # rest"
    and m: "LF \<notin> set m" "sublist ready_phrase (strip m)"
    by blast+
  have "wait_for_ready t = wait_for_ready ?t1"
    using assms i by (rule wait_for_ready_lines)
  also have "\<dots> = (Returns (),
      ?t1\<lparr>calls := calls ?t1 @ [ReadUntil LF], inbound := rest,
          stdout := stdout ?t1 @ [''Arduino is ready!'']\<rparr>)"
    by (rule wait_for_ready_hit [where m = m]) (simp_all add: assms(1) m)
  finally show "wait_for_ready t =
            (Returns (),
             t\<lparr>calls := calls t @ replicate (Suc (length pre)) (ReadUntil LF),
               inbound := rest,
               stdout := stdout t @ [''Arduino is ready!'']\<rparr>)"
    by (simp add: replicate_append_same)
next
  assume h: "inbound t = concat (map (\<lambda>l. encode l @ [LF]) pre) @ tail \<and> LF \<notin> set tail"
  let ?t1 = "t\<lparr>calls := calls t @ replicate (length pre) (ReadUntil LF), inbound := tail\<rparr>"
  from h have i: "inbound t = concat (map (\<lambda>l. encode l @ [LF]) pre) @ tail"
    and n: "LF \<notin> set tail"
    by blast+
  have "wait_for_ready t = wait_for_ready ?t1"
    using assms i by (rule wait_for_ready_lines)
  also have "\<dots> = (Blocks, ?t1\<lparr>calls := calls ?t1 @ [ReadUntil LF], inbound := []\<rparr>)"
    by (rule wait_for_ready_starved) (simp_all add: assms(1) n)
  finally show "wait_for_ready t =
            (Blocks,
             t\<lparr>calls := calls t @ replicate (Suc (length pre)) (ReadUntil LF),
               inbound := []\<rparr>)"
    by (simp add: replicate_append_same)
qed

theorem wait_for_ready_first_match_witness:
  "wait_for_ready
     \<lparr>calls = [], outbound = [],
       inbound = ''Booting\<newline>\<newline>  microMONET is ready for some stargazing! v2\<newline>ALT: 1.0 AZ: 2.0\<newline>'',
       is_open = True, stdout = []\<rparr>
     = (Returns (),
        \<lparr>calls = [ReadUntil LF, ReadUntil LF, ReadUntil LF], outbound = [],
          inbound = ''ALT: 1.0 AZ: 2.0\<newline>'', is_open = True, stdout = [''Arduino is ready!'']\<rparr>)
   \<and> wait_for_ready
     \<lparr>calls = [], outbound = [], inbound = ''Booting\<newline>microMONET is'',
       is_open = True, stdout = []\<rparr>
     = (Blocks,
        \<lparr>calls = [ReadUntil LF, ReadUntil LF], outbound = [], inbound = [],
          is_open = True, stdout = []\<rparr>)"
  using wait_for_ready_first_match
          [of "\<lparr>calls = [], outbound = [],
                 inbound = ''Booting\<newline>\<newline>  microMONET is ready for some stargazing! v2\<newline>ALT: 1.0 AZ: 2.0\<newline>'',
                 is_open = True, stdout = []\<rparr>"
              "[''Booting'', []]" "''  microMONET is ready for some stargazing! v2''"
              "''ALT: 1.0 AZ: 2.0\<newline>''"]
        wait_for_ready_first_match
          [of "\<lparr>calls = [], outbound = [], inbound = ''Booting\<newline>microMONET is'',
                 is_open = True, stdout = []\<rparr>"
              "[''Booting'']" "[]" "[]" "''microMONET is''"]
  by (simp add: encode_def encode_char_def strip_def isspace_def LF_def ready_phrase_def
        sublist_Cons_right)

text \<open>
  C7, as the code has it. \<open>get_temperature\<close> sends \<open>GET_TEMP\<close> and \<open>get_humidity\<close> sends
  \<open>GET_HUMI\<close>. Each matches the stripped response against its pattern, \<^verbatim>\<open>Temperature: ([\d.]+)\<close>
  or \<^verbatim>\<open>Humidity: ([\d.]+)\<close>, anchored at the start. When the response has that shape and
  \<^verbatim>\<open>float()\<close> accepts the field, the value of the field is returned, whatever follows
  it: \<open>Temperature: 25.0 \<degree>C\<close> gives 25.0 and \<open>Humidity: 50.0 %\<close> gives 50.0. When the
  pattern does not match, \<open>ValueError\<close> is raised with the response in its message.
\<close>

theorem get_temperature_humidity_parsed:
  assumes "is_open t" and "inbound t = encode line @ LF # rest" and "LF \<notin> set line"
  shows "(strip line = ''Temperature: '' @ a @ trailing \<and> a \<noteq> [] \<and> list_all num_char a
            \<and> (trailing = [] \<or> \<not> num_char (hd trailing)) \<and> py_float a = Inr x \<longrightarrow>
          get_temperature t =
            (Returns x,
             t\<lparr>calls := calls t @ [Write ''GET_TEMP\<newline>'', ReadUntil LF],
               outbound := outbound t @ ''GET_TEMP\<newline>'', inbound := rest\<rparr>))
       \<and> (re_match temperature_re (strip line) = None \<longrightarrow>
          get_temperature t =
            (Raises (ValueError (''Invalid temperature response: '' @ strip line)),
             t\<lparr>calls := calls t @ [Write ''GET_TEMP\<newline>'', ReadUntil LF],
               outbound := outbound t @ ''GET_TEMP\<newline>'', inbound := rest\<rparr>))
       \<and> (strip line = ''Humidity: '' @ a @ trailing \<and> a \<noteq> [] \<and> list_all num_char a
            \<and> (trailing = [] \<or> \<not> num_char (hd trailing)) \<and> py_float a = Inr x \<longrightarrow>
          get_humidity t =
            (Returns x,
             t\<lparr>calls := calls t @ [Write ''GET_HUMI\<newline>'', ReadUntil LF],
               outbound := outbound t @ ''GET_HUMI\<newline>'', inbound := rest\<rparr>))
       \<and> (re_match humidity_re (strip line) = None \<longrightarrow>
          get_humidity t =
            (Raises (ValueError (''Invalid humidity response: '' @ strip line)),
             t\<lparr>calls := calls t @ [Write ''GET_HUMI\<newline>'', ReadUntil LF],
               outbound := outbound t @ ''GET_HUMI\<newline>'', inbound := rest\<rparr>))"
proof (intro conjI impI)
  assume h: "strip line = ''Temperature: '' @ a @ trailing \<and> a \<noteq> [] \<and> list_all num_char a
            \<and> (trailing = [] \<or> \<not> num_char (hd trailing)) \<and> py_float a = Inr x"
  then have s: "strip line = ''Temperature: '' @ a @ trailing" and f: "py_float a = Inr x"
    and a: "a \<noteq> []" "list_all num_char a" "trailing = [] \<or> \<not> num_char (hd trailing)"
    by blast+
  have "parse_temperature (strip line) = Returns x"
    by (simp only: s parse_temperature_field [OF a] float_single_ok [OF f])
  then show "get_temperature t =
            (Returns x,
             t\<lparr>calls := calls t @ [Write ''GET_TEMP\<newline>'', ReadUntil LF],
               outbound := outbound t @ ''GET_TEMP\<newline>'', inbound := rest\<rparr>)"
    by (simp only: get_temperature_line [OF assms])
next
  assume "re_match temperature_re (strip line) = None"
  then show "get_temperature t =
            (Raises (ValueError (''Invalid temperature response: '' @ strip line)),
             t\<lparr>calls := calls t @ [Write ''GET_TEMP\<newline>'', ReadUntil LF],
               outbound := outbound t @ ''GET_TEMP\<newline>'', inbound := rest\<rparr>)"
    by (simp add: get_temperature_line [OF assms] parse_temperature_mismatch)
next
  assume h: "strip line = ''Humidity: '' @ a @ trailing \<and> a \<noteq> [] \<and> list_all num_char a
            \<and> (trailing = [] \<or> \<not> num_char (hd trailing)) \<and> py_float a = Inr x"
  then have s: "strip line = ''Humidity: '' @ a @ trailing" and f: "py_float a = Inr x"
    and a: "a \<noteq> []" "list_all num_char a" "trailing = [] \<or> \<not> num_char (hd trailing)"
    by blast+
  have "parse_humidity (strip line) = Returns x"
    by (simp only: s parse_humidity_field [OF a] float_single_ok [OF f])
  then show "get_humidity t =
            (Returns x,
             t\<lparr>calls := calls t @ [Write ''GET_HUMI\<newline>'', ReadUntil LF],
               outbound := outbound t @ ''GET_HUMI\<newline>'', inbound := rest\<rparr>)"
    by (simp only: get_humidity_line [OF assms])
next
  assume "re_match humidity_re (strip line) = None"
  then show "get_humidity t =
            (Raises (ValueError (''Invalid humidity response: '' @ strip line)),
             t\<lparr>calls := calls t @ [Write ''GET_HUMI\<newline>'', ReadUntil LF],
               outbound := outbound t @ ''GET_HUMI\<newline>'', inbound := rest\<rparr>)"
    by (simp add: get_humidity_line [OF assms] parse_humidity_mismatch)
qed

theorem get_temperature_humidity_parsed_witness:
  "get_temperature
     \<lparr>calls = [], outbound = [],
       inbound = ''Temperature: 25.0 '' @ [CHR 0xC2, CHR 0xB0] @ ''C\<newline>'',
       is_open = True, stdout = []\<rparr>
     = (Returns 25,
        \<lparr>calls = [Write ''GET_TEMP\<newline>'', ReadUntil LF], outbound = ''GET_TEMP\<newline>'',
          inbound = [], is_open = True, stdout = []\<rparr>)
   \<and> get_temperature
     \<lparr>calls = [], outbound = [], inbound = ''Temp: 25\<newline>'', is_open = True, stdout = []\<rparr>
     = (Raises (ValueError ''Invalid temperature response: Temp: 25''),
        \<lparr>calls = [Write ''GET_TEMP\<newline>'', ReadUntil LF], outbound = ''GET_TEMP\<newline>'',
          inbound = [], is_open = True, stdout = []\<rparr>)
   \<and> get_humidity
     \<lparr>calls = [], outbound = [], inbound = ''Humidity: 50.0 %\<newline>'', is_open = True, stdout = []\<rparr>
     = (Returns 50,
        \<lparr>calls = [Write ''GET_HUMI\<newline>'', ReadUntil LF], outbound = ''GET_HUMI\<newline>'',
          inbound = [], is_open = True, stdout = []\<rparr>)
   \<and> get_humidity
     \<lparr>calls = [], outbound = [], inbound = ''Temperature: 25.0\<newline>'', is_open = True, stdout = []\<rparr>
     = (Raises (ValueError ''Invalid humidity response: Temperature: 25.0''),
        \<lparr>calls = [Write ''GET_HUMI\<newline>'', ReadUntil LF], outbound = ''GET_HUMI\<newline>'',
          inbound = [], is_open = True, stdout = []\<rparr>)"
  using get_temperature_humidity_parsed
          [of "\<lparr>calls = [], outbound = [],
                 inbound = ''Temperature: 25.0 '' @ [CHR 0xC2, CHR 0xB0] @ ''C\<newline>'',
                 is_open = True, stdout = []\<rparr>"
              "''Temperature: 25.0 '' @ [CHR 0xB0] @ ''C''" "[]" "''25.0''" "'' '' @ [CHR 0xB0] @ ''C''" 25]
        get_temperature_humidity_parsed
          [of "\<lparr>calls = [], outbound = [], inbound = ''Temp: 25\<newline>'', is_open = True, stdout = []\<rparr>"
              "''Temp: 25''" "[]"]
        get_temperature_humidity_parsed
          [of "\<lparr>calls = [], outbound = [], inbound = ''Humidity: 50.0 %\<newline>'', is_open = True, stdout = []\<rparr>"
              "''Humidity: 50.0 %''" "[]" "''50.0''" "'' %''" 50]
        get_temperature_humidity_parsed
          [of "\<lparr>calls = [], outbound = [], inbound = ''Temperature: 25.0\<newline>'', is_open = True, stdout = []\<rparr>"
              "''Temperature: 25.0''" "[]"]
  by (simp add: encode_def encode_char_def strip_def isspace_def LF_def num_char_def isdigit_def
        py_float_def decimal_def digit_val_def temperature_run humidity_run
        char_of_def bit_Suc_0_iff)

text \<open>
  C7 as stated promises the parsed float on every match. The response \<open>Temperature: 1.2.3\<close>
  matches with the group \<open>1.2.3\<close>, and \<open>get_temperature\<close> raises the error of
  \<^verbatim>\<open>float("1.2.3")\<close> instead of returning a number.
\<close>

theorem get_temperature_field_counterexample:
  "re_match temperature_re ''Temperature: 1.2.3'' = Some [''1.2.3'']
   \<and> get_temperature
       \<lparr>calls = [], outbound = [], inbound = ''Temperature: 1.2.3\<newline>'', is_open = True, stdout = []\<rparr>
     = (Raises (float_error ''1.2.3''),
        \<lparr>calls = [Write ''GET_TEMP\<newline>'', ReadUntil LF], outbound = ''GET_TEMP\<newline>'',
          inbound = [], is_open = True, stdout = []\<rparr>)"
proof -
  have "get_temperature
       \<lparr>calls = [], outbound = [], inbound = ''Temperature: 1.2.3\<newline>'', is_open = True, stdout = []\<rparr>
     = (parse_temperature (strip ''Temperature: 1.2.3''),
        \<lparr>calls = [Write ''GET_TEMP\<newline>'', ReadUntil LF], outbound = ''GET_TEMP\<newline>'',
          inbound = [], is_open = True, stdout = []\<rparr>)"
    using get_temperature_line
      [of "\<lparr>calls = [], outbound = [], inbound = ''Temperature: 1.2.3\<newline>'', is_open = True, stdout = []\<rparr>"
          "''Temperature: 1.2.3''" "[]"]
    by (simp add: encode_def encode_char_def LF_def)
  then show ?thesis
    by (simp add: strip_def isspace_def parse_temperature_def temperature_run num_char_def isdigit_def
          Let_def float_single_def py_float_def decimal_def digit_val_def)
qed

text \<open>
  C8. \<open>set_position\<close> formats the command as \<open>ALT:\<close>, the altitude, \<open> AZ:\<close>, the azimuth, each
  number in the default text form of its type, and makes one exchange through
  \<open>send_command\<close>: one write, one read of the answer to that command. It returns then, with
  every later line of the peer still unread: it does not ask for the position.
\<close>

theorem set_position_exchange:
  assumes "is_open t" and "inbound t = encode line @ LF # rest" and "LF \<notin> set line"
  shows "set_position fmt altitude azimuth t =
           (Returns (),
            t\<lparr>calls := calls t @
                 [Write (encode (''ALT:'' @ fmt altitude @ '' AZ:'' @ fmt azimuth) @ [LF]), ReadUntil LF],
              outbound := outbound t @ encode (''ALT:'' @ fmt altitude @ '' AZ:'' @ fmt azimuth) @ [LF],
              inbound := rest\<rparr>)"
  by (simp add: set_position_def send_command_line [OF assms] and_then_def)

theorem set_position_exchange_witness:
  "set_position str_int 45 90
     \<lparr>calls = [], outbound = [], inbound = ''Slewing\<newline>ALT: 1.0 AZ: 2.0\<newline>'', is_open = True, stdout = []\<rparr>
     = (Returns (),
        \<lparr>calls = [Write ''ALT:45 AZ:90\<newline>'', ReadUntil LF], outbound = ''ALT:45 AZ:90\<newline>'',
          inbound = ''ALT: 1.0 AZ: 2.0\<newline>'', is_open = True, stdout = []\<rparr>)"
  using set_position_exchange
          [of "\<lparr>calls = [], outbound = [], inbound = ''Slewing\<newline>ALT: 1.0 AZ: 2.0\<newline>'', is_open = True, stdout = []\<rparr>"
              "''Slewing''" "''ALT: 1.0 AZ: 2.0\<newline>''" str_int 45 90]
  by (simp add: encode_def encode_char_def LF_def str_int_def str_nat.simps char_of_def bit_Suc_0_iff)

text \<open>
  C9, as the code has it. The client keeps no state of its own: \<open>close\<close> closes the port and
  nothing else. An operation after \<open>close\<close> makes its first call on the port all the same, a
  write for \<open>send_command\<close> and the operations built on it, a read for \<open>wait_for_ready\<close>; the
  closed port refuses the call, and the port's own error reaches the caller.
\<close>

theorem closed_port_is_still_called:
  "send_command command (snd (close t))
     = (Raises SerialException,
        t\<lparr>calls := calls t @ [Close, Write (encode command @ [LF])], is_open := False\<rparr>)
   \<and> get_position (snd (close t))
     = (Raises SerialException,
        t\<lparr>calls := calls t @ [Close, Write ''GET_POS\<newline>''], is_open := False\<rparr>)
   \<and> wait_for_ready (snd (close t))
     = (Raises SerialException,
        t\<lparr>calls := calls t @ [Close, ReadUntil LF], is_open := False\<rparr>)"
  by (simp add: close_def serial_close_def send_command_closed wait_for_ready_closed
        get_position_def and_then_def encode_GET_POS LF_def)

text \<open>
  C9 as stated has every operation after \<open>close\<close> fail without a call on the port. After
  \<open>close\<close>, \<open>send_command\<close> with \<open>GET_POS\<close> calls the port's write, as the log of calls shows,
  and what is raised is the error of the port.
\<close>

theorem closed_port_counterexample:
  "send_command ''GET_POS''
     (snd (close \<lparr>calls = [], outbound = [], inbound = ''ALT: 1.0 AZ: 2.0\<newline>'', is_open = True, stdout = []\<rparr>))
   = (Raises SerialException,
      \<lparr>calls = [Close, Write ''GET_POS\<newline>''], outbound = [], inbound = ''ALT: 1.0 AZ: 2.0\<newline>'',
        is_open = False, stdout = []\<rparr>)"
  by (simp add: close_def serial_close_def send_command_closed encode_GET_POS LF_def)

text \<open>
  C10. The group \<^verbatim>\<open>[\d.]+\<close> matches text that \<^verbatim>\<open>float()\<close> rejects. The response
  \<open>Temperature: .\<close> matches the temperature pattern with the group \<open>.\<close>, and
  \<open>ALT: 1.2.3 AZ: 4.0\<close> matches the position pattern with the groups \<open>1.2.3\<close> and \<open>4.0\<close>.
  On both the conversion raises its own \<open>ValueError\<close>: no value is returned, and the error is
  not the one that carries the response.
\<close>

theorem field_match_without_float:
  "re_match temperature_re ''Temperature: .'' = Some [''.'']
   \<and> py_float ''.'' = Inl (float_error ''.'')
   \<and> get_temperature
       \<lparr>calls = [], outbound = [], inbound = ''Temperature: .\<newline>'', is_open = True, stdout = []\<rparr>
     = (Raises (float_error ''.''),
        \<lparr>calls = [Write ''GET_TEMP\<newline>'', ReadUntil LF], outbound = ''GET_TEMP\<newline>'',
          inbound = [], is_open = True, stdout = []\<rparr>)
   \<and> float_error ''.'' \<noteq> ValueError (''Invalid temperature response: '' @ ''Temperature: .'')
   \<and> re_match position_re ''ALT: 1.2.3 AZ: 4.0'' = Some [''1.2.3'', ''4.0'']
   \<and> py_float ''1.2.3'' = Inl (float_error ''1.2.3'')
   \<and> get_position
       \<lparr>calls = [], outbound = [], inbound = ''ALT: 1.2.3 AZ: 4.0\<newline>'', is_open = True, stdout = []\<rparr>
     = (Raises (float_error ''1.2.3''),
        \<lparr>calls = [Write ''GET_POS\<newline>'', ReadUntil LF], outbound = ''GET_POS\<newline>'',
          inbound = [], is_open = True, stdout = []\<rparr>)
   \<and> float_error ''1.2.3'' \<noteq> ValueError (''Invalid position response: '' @ ''ALT: 1.2.3 AZ: 4.0'')"
proof -
  have t: "get_temperature
       \<lparr>calls = [], outbound = [], inbound = ''Temperature: .\<newline>'', is_open = True, stdout = []\<rparr>
     = (parse_temperature (strip ''Temperature: .''),
        \<lparr>calls = [Write ''GET_TEMP\<newline>'', ReadUntil LF], outbound = ''GET_TEMP\<newline>'',
          inbound = [], is_open = True, stdout = []\<rparr>)"
    using get_temperature_line
      [of "\<lparr>calls = [], outbound = [], inbound = ''Temperature: .\<newline>'', is_open = True, stdout = []\<rparr>"
          "''Temperature: .''" "[]"]
    by (simp add: encode_def encode_char_def LF_def)
  have p: "get_position
       \<lparr>calls = [], outbound = [], inbound = ''ALT: 1.2.3 AZ: 4.0\<newline>'', is_open = True, stdout = []\<rparr>
     = (parse_position (strip ''ALT: 1.2.3 AZ: 4.0''),
        \<lparr>calls = [Write ''GET_POS\<newline>'', ReadUntil LF], outbound = ''GET_POS\<newline>'',
          inbound = [], is_open = True, stdout = []\<rparr>)"
    using get_position_line
      [of "\<lparr>calls = [], outbound = [], inbound = ''ALT: 1.2.3 AZ: 4.0\<newline>'', is_open = True, stdout = []\<rparr>"
          "''ALT: 1.2.3 AZ: 4.0''" "[]"]
    by (simp add: encode_def encode_char_def LF_def)
  show ?thesis
    unfolding t p
    by (simp add: strip_def isspace_def parse_temperature_def parse_position_def
          temperature_run position_run num_char_def isdigit_def Let_def float_single_def
          float_pair_def py_float_def float_error_def)
qed

end
